theory Spec2Isabelle
  imports Main
begin

section \<open>Documents and the JavaScript operations the analyzer applies to them\<close>

text \<open>
  The analyzer (\<^verbatim>\<open>src/core/spec-analyzer.ts\<close>, class \<^verbatim>\<open>SpecAnalyzer\<close>) receives an
  already parsed OpenAPI document. TypeScript types are erased at run time, and the code
  itself reads the document defensively (\<^verbatim>\<open>||\<close>, \<^verbatim>\<open>?.\<close>), so the document is modelled
  as an untyped JSON value, and every property read follows JavaScript:
  a read from \<^verbatim>\<open>null\<close> or \<^verbatim>\<open>undefined\<close> throws a \<^verbatim>\<open>TypeError\<close>, a read of a missing
  property is \<^verbatim>\<open>undefined\<close>.

  Conventions of the model:
  \<^item> an object is the list of its own enumerable properties in the order in which
    \<^verbatim>\<open>Object.entries\<close> enumerates them, with distinct keys;
  \<^item> strings are lists of 8-bit characters and stand for ASCII text: case mapping
    changes the letters A-Z and a-z only, and the line terminators are LF and CR;
  \<^item> numbers are integers.
\<close>

datatype json =
    JUndefined
  | JNull
  | JBool bool
  | JNum int
  | JStr string
  | JArr "json list"
  | JObj "(string \<times> json) list"

text \<open>
  \<open>TypeError\<close> is the only exception the analyzer can raise. \<open>Unmodelled\<close> is not an
  exception of the program: the model returns it where the result would depend on
  JavaScript's conversion of a string, an array or an object to a number
  (see \<open>floorDiv3\<close>), which the model does not cover.
\<close>

datatype error = TypeError | Unmodelled

text \<open>A JavaScript number as far as the analyzer computes one: an integer or \<^verbatim>\<open>NaN\<close>.\<close>

datatype jsnum = Num int | NaN

subsection \<open>Sequencing computations that may throw\<close>

definition bindE :: "error + 'a \<Rightarrow> ('a \<Rightarrow> error + 'b) \<Rightarrow> error + 'b" where
  "bindE m f = (case m of Inl e \<Rightarrow> Inl e | Inr x \<Rightarrow> f x)"

text \<open>A \<^verbatim>\<open>for ... of\<close> loop whose body updates a state and may throw.\<close>

fun foldE :: "('a \<Rightarrow> 's \<Rightarrow> error + 's) \<Rightarrow> 'a list \<Rightarrow> 's \<Rightarrow> error + 's" where
  "foldE f [] s = Inr s"
| "foldE f (x # xs) s = (case f x s of Inl e \<Rightarrow> Inl e | Inr s' \<Rightarrow> foldE f xs s')"

text \<open>\<^verbatim>\<open>Array.prototype.some\<close> with a callback that may throw: it stops at the first hit.\<close>

fun someE :: "('a \<Rightarrow> error + bool) \<Rightarrow> 'a list \<Rightarrow> error + bool" where
  "someE f [] = Inr False"
| "someE f (x # xs) =
     (case f x of Inl e \<Rightarrow> Inl e | Inr b \<Rightarrow> if b then Inr True else someE f xs)"

text \<open>\<^verbatim>\<open>Array.prototype.find\<close> over entries, returning the key of the first hit.\<close>

fun findKeyE :: "(json \<Rightarrow> error + bool) \<Rightarrow> (string \<times> json) list \<Rightarrow> error + string option" where
  "findKeyE f [] = Inr None"
| "findKeyE f (kv # kvs) =
     (case f (snd kv) of Inl e \<Rightarrow> Inl e | Inr b \<Rightarrow> if b then Inr (Some (fst kv)) else findKeyE f kvs)"

subsection \<open>Strings\<close>

definition toLowerChar :: "char \<Rightarrow> char" where
  "toLowerChar c =
     (case map_of (zip ''ABCDEFGHIJKLMNOPQRSTUVWXYZ'' ''abcdefghijklmnopqrstuvwxyz'') c of
        Some l \<Rightarrow> l | None \<Rightarrow> c)"

definition toUpperChar :: "char \<Rightarrow> char" where
  "toUpperChar c =
     (case map_of (zip ''abcdefghijklmnopqrstuvwxyz'' ''ABCDEFGHIJKLMNOPQRSTUVWXYZ'') c of
        Some u \<Rightarrow> u | None \<Rightarrow> c)"

definition toLowerCase :: "string \<Rightarrow> string" where
  "toLowerCase s = map toLowerChar s"

definition toUpperCase :: "string \<Rightarrow> string" where
  "toUpperCase s = map toUpperChar s"

fun startsWith :: "string \<Rightarrow> string \<Rightarrow> bool" where
  "startsWith s [] = True"
| "startsWith [] (p # ps) = False"
| "startsWith (c # cs) (p # ps) = (c = p \<and> startsWith cs ps)"

definition endsWith :: "string \<Rightarrow> string \<Rightarrow> bool" where
  "endsWith s p = startsWith (rev s) (rev p)"

text \<open>\<^verbatim>\<open>s.includes(p)\<close>: \<open>p\<close> occurs in \<open>s\<close> as a substring.\<close>

fun includesStr :: "string \<Rightarrow> string \<Rightarrow> bool" where
  "includesStr [] p = (p = [])"
| "includesStr (c # cs) p = (startsWith (c # cs) p \<or> includesStr cs p)"

text \<open>The decimal numeral of an array index, as \<^verbatim>\<open>Object.entries\<close> names it.\<close>

fun showNat :: "nat \<Rightarrow> string" where
  "showNat n =
     (if n < 10 then [''0123456789'' ! n]
      else showNat (n div 10) @ [''0123456789'' ! (n mod 10)])"

declare showNat.simps [simp del]

subsection \<open>Values, truthiness and property reads\<close>

fun truthy :: "json \<Rightarrow> bool" where
  "truthy JUndefined = False"
| "truthy JNull = False"
| "truthy (JBool b) = b"
| "truthy (JNum n) = (n \<noteq> 0)"
| "truthy (JStr s) = (s \<noteq> [])"
| "truthy (JArr xs) = True"
| "truthy (JObj kvs) = True"

fun nullish :: "json \<Rightarrow> bool" where
  "nullish JUndefined = True"
| "nullish JNull = True"
| "nullish v = False"

text \<open>
  \<^verbatim>\<open>Object.entries(v)\<close> for a value that is neither \<^verbatim>\<open>null\<close> nor \<^verbatim>\<open>undefined\<close>: the
  properties of an object, the indexed elements of an array, the indexed characters of a
  string, nothing for a number or a boolean.
\<close>

fun ownEntries :: "json \<Rightarrow> (string \<times> json) list" where
  "ownEntries (JObj kvs) = kvs"
| "ownEntries (JArr xs) = zip (map showNat [0..<length xs]) xs"
| "ownEntries (JStr s) = zip (map showNat [0..<length s]) (map (\<lambda>c. JStr [c]) s)"
| "ownEntries v = []"

definition entries :: "json \<Rightarrow> error + (string \<times> json) list" where
  "entries v = (if nullish v then Inl TypeError else Inr (ownEntries v))"

text \<open>
  \<open>readOpt v k\<close> is the optional read \<^verbatim>\<open>v?.[k]\<close>: \<^verbatim>\<open>undefined\<close> when \<open>v\<close> is \<^verbatim>\<open>null\<close> or
  \<^verbatim>\<open>undefined\<close>. None of the keys the analyzer reads is an inherited property of an
  object, an array, a string, a number or a boolean, apart from \<^verbatim>\<open>length\<close>;
  so a read finds an own property, an index, the length, or nothing.
  \<open>readProp v k\<close> is the plain read \<^verbatim>\<open>v[k]\<close>, which throws on \<^verbatim>\<open>null\<close> and \<^verbatim>\<open>undefined\<close>.
\<close>

fun readOpt :: "json \<Rightarrow> string \<Rightarrow> json" where
  "readOpt (JObj kvs) k = (case map_of kvs k of Some v \<Rightarrow> v | None \<Rightarrow> JUndefined)"
| "readOpt (JArr xs) k =
     (if k = ''length'' then JNum (int (length xs))
      else case map_of (ownEntries (JArr xs)) k of Some v \<Rightarrow> v | None \<Rightarrow> JUndefined)"
| "readOpt (JStr s) k =
     (if k = ''length'' then JNum (int (length s))
      else case map_of (ownEntries (JStr s)) k of Some v \<Rightarrow> v | None \<Rightarrow> JUndefined)"
| "readOpt v k = JUndefined"

definition readProp :: "json \<Rightarrow> string \<Rightarrow> error + json" where
  "readProp v k = (if nullish v then Inl TypeError else Inr (readOpt v k))"

text \<open>\<^verbatim>\<open>k in v\<close> for a value \<open>v\<close> whose \<^verbatim>\<open>typeof\<close> is \<^verbatim>\<open>'object'\<close> and that is not \<^verbatim>\<open>null\<close>.\<close>

fun hasProperty :: "json \<Rightarrow> string \<Rightarrow> bool" where
  "hasProperty (JObj kvs) k = (map_of kvs k \<noteq> None)"
| "hasProperty (JArr xs) k = (k = ''length'' \<or> map_of (ownEntries (JArr xs)) k \<noteq> None)"
| "hasProperty v k = False"

fun typeofObject :: "json \<Rightarrow> bool" where
  "typeofObject JNull = True"
| "typeofObject (JArr xs) = True"
| "typeofObject (JObj kvs) = True"
| "typeofObject v = False"

text \<open>\<^verbatim>\<open>v || {}\<close> and \<^verbatim>\<open>v || []\<close>.\<close>

definition orEmptyObject :: "json \<Rightarrow> json" where
  "orEmptyObject v = (if truthy v then v else JObj [])"

definition orEmptyArray :: "json \<Rightarrow> json" where
  "orEmptyArray v = (if truthy v then v else JArr [])"

text \<open>
  \<^verbatim>\<open>v.toLowerCase()\<close>: only a string has the method; on anything else the call throws.
\<close>

fun callToLowerCase :: "json \<Rightarrow> error + string" where
  "callToLowerCase (JStr s) = Inr (toLowerCase s)"
| "callToLowerCase v = Inl TypeError"

text \<open>
  \<^verbatim>\<open>v?.toLowerCase().includes(w)\<close>: \<^verbatim>\<open>undefined\<close> when \<open>v\<close> is \<^verbatim>\<open>null\<close> or \<^verbatim>\<open>undefined\<close>,
  a boolean when \<open>v\<close> is a string, a \<^verbatim>\<open>TypeError\<close> otherwise.
\<close>

fun lowerIncludes :: "json \<Rightarrow> string \<Rightarrow> error + json" where
  "lowerIncludes JUndefined w = Inr JUndefined"
| "lowerIncludes JNull w = Inr JUndefined"
| "lowerIncludes (JStr s) w = Inr (JBool (includesStr (toLowerCase s) w))"
| "lowerIncludes v w = Inl TypeError"

text \<open>
  \<^verbatim>\<open>v.includes(w)\<close> for a string \<open>w\<close>: the substring test on a string, membership in an
  array; nothing else has the method, so the call throws. \<^verbatim>\<open>v?.includes(w)\<close>, read for
  its truth value, is \<^verbatim>\<open>undefined\<close> (false) when \<open>v\<close> is \<^verbatim>\<open>null\<close> or \<^verbatim>\<open>undefined\<close>.
\<close>

fun callIncludes :: "json \<Rightarrow> string \<Rightarrow> error + bool" where
  "callIncludes (JStr s) w = Inr (includesStr s w)"
| "callIncludes (JArr xs) w = Inr (List.member xs (JStr w))"
| "callIncludes v w = Inl TypeError"

definition optIncludes :: "json \<Rightarrow> string \<Rightarrow> error + bool" where
  "optIncludes v w = (if nullish v then Inr False else callIncludes v w)"

text \<open>
  \<^verbatim>\<open>Math.floor(v / 3)\<close>. \<^verbatim>\<open>undefined\<close> converts to \<^verbatim>\<open>NaN\<close>, \<^verbatim>\<open>null\<close> and \<^verbatim>\<open>false\<close> to 0,
  \<^verbatim>\<open>true\<close> to 1. The conversion of a string, an array or an object is not modelled.
\<close>

fun floorDiv3 :: "json \<Rightarrow> error + jsnum" where
  "floorDiv3 (JNum n) = Inr (Num (n div 3))"
| "floorDiv3 JUndefined = Inr NaN"
| "floorDiv3 JNull = Inr (Num 0)"
| "floorDiv3 (JBool b) = Inr (Num 0)"
| "floorDiv3 v = Inl Unmodelled"

fun plusNum :: "jsnum \<Rightarrow> jsnum \<Rightarrow> jsnum" where
  "plusNum (Num n) (Num k) = Num (n + k)"
| "plusNum a b = NaN"

fun numGreater :: "jsnum \<Rightarrow> int \<Rightarrow> bool" where
  "numGreater (Num n) k = (k < n)"
| "numGreater NaN k = False"


section \<open>The analysis model\<close>

text \<open>
  The records of \<^verbatim>\<open>src/types/analysis.ts\<close>. Field names carry a prefix, since the
  interfaces share field names (\<^verbatim>\<open>name\<close>, \<^verbatim>\<open>type\<close>, \<^verbatim>\<open>description\<close>, \<^verbatim>\<open>endpoint\<close>).
  A field the analyzer fills with the value of a \<^verbatim>\<open>||\<close> chain holds a JSON value, because
  such a chain can yield \<^verbatim>\<open>undefined\<close> or a value of the document. An optional field
  that the analyzer sets in some models only is an option, \<open>None\<close> while it is absent;
  the optional fields it never sets (\<^verbatim>\<open>category\<close>, \<^verbatim>\<open>tags\<close>, \<^verbatim>\<open>through\<close>,
  \<^verbatim>\<open>retryStrategy\<close> and the like) are left out.
\<close>

record WorkflowStep =
  step_action :: string
  step_endpoint :: "string option"
  step_description :: "string option"

record WorkflowPattern =
  wf_name :: string
  wf_type :: string
  wf_steps :: "WorkflowStep list"

record AnalyzedEndpoint =
  ep_path :: string
  ep_method :: string
  ep_operation :: json
  ep_isAction :: json
  ep_isResource :: bool
  ep_complexity :: jsnum

record AnalyzedResource =
  res_name :: string
  res_schema :: json
  res_isCore :: bool
  res_relationships :: "string list"

record ResourceRelationship =
  rel_from :: string
  rel_to :: string
  rel_type :: string

record ErrorPattern =
  err_statusCode :: string
  err_endpoint :: string
  err_description :: json
  err_recoverable :: json

record APICapabilities =
  hasPagination :: bool
  hasBatchOperations :: bool
  hasWebhooks :: bool
  hasAsyncOperations :: bool
  hasAuthentication :: bool
  hasRateLimiting :: bool
  requiresStrictValidation :: "bool option"
  hasTestMode :: "bool option"

record SpecAnalysis =
  hasTools :: bool
  hasResources :: bool
  hasPrompts :: bool
  requiresSampling :: "bool option"
  requiresContextManagement :: "bool option"
  requiresErrorIntelligence :: "bool option"
  endpoints :: "AnalyzedEndpoint list"
  resources :: "AnalyzedResource list"
  workflows :: "WorkflowPattern list"
  relationships :: "ResourceRelationship list"
  errorPatterns :: "ErrorPattern list"
  capabilities :: APICapabilities

text \<open>The values the type of \<^verbatim>\<open>WorkflowPattern.type\<close> declares.\<close>

definition workflowTypes :: "string list" where
  "workflowTypes = [''crud'', ''auth'', ''pagination'', ''multipart'', ''async'', ''custom'']"

text \<open>The object literal \<^verbatim>\<open>analyze\<close> starts from.\<close>

definition initialAnalysis :: SpecAnalysis where
  "initialAnalysis =
     \<lparr> hasTools = False, hasResources = False, hasPrompts = False,
       requiresSampling = None, requiresContextManagement = None,
       requiresErrorIntelligence = None,
       endpoints = [], resources = [], workflows = [], relationships = [],
       errorPatterns = [],
       capabilities =
         \<lparr> hasPagination = False, hasBatchOperations = False, hasWebhooks = False,
           hasAsyncOperations = False, hasAuthentication = False, hasRateLimiting = False,
           requiresStrictValidation = None, hasTestMode = None \<rparr> \<rparr>"

section \<open>Helper methods of the analyzer\<close>

definition isOperation :: "json \<Rightarrow> bool" where
  "isOperation obj =
     (truthy obj \<and> typeofObject obj \<and>
      (hasProperty obj ''summary'' \<or> hasProperty obj ''description'' \<or>
       hasProperty obj ''responses''))"

text \<open>
  The value of \<^verbatim>\<open>a || b || c\<close> over the summary: the first truthy operand, else the last.
\<close>

definition summaryMentions :: "json \<Rightarrow> string \<Rightarrow> string \<Rightarrow> string \<Rightarrow> error + json" where
  "summaryMentions operation w1 w2 w3 =
     bindE (readProp operation ''summary'') (\<lambda>s.
     bindE (lowerIncludes s w1) (\<lambda>a. if truthy a then Inr a else
     bindE (lowerIncludes s w2) (\<lambda>b. if truthy b then Inr b else
     lowerIncludes s w3)))"

definition isActionEndpoint :: "string \<Rightarrow> json \<Rightarrow> error + json" where
  "isActionEndpoint m operation =
     (if toUpperCase m \<in> set [''POST'', ''PUT'', ''PATCH'', ''DELETE''] then Inr (JBool True)
      else summaryMentions operation ''create'' ''update'' ''delete'')"

definition hasSideEffects :: "json \<Rightarrow> error + json" where
  "hasSideEffects operation = summaryMentions operation ''trigger'' ''send'' ''execute''"

definition isResourceEndpoint :: "string \<Rightarrow> json \<Rightarrow> error + bool" where
  "isResourceEndpoint m operation =
     (if toUpperCase m = ''GET''
      then bindE (hasSideEffects operation) (\<lambda>h. Inr (\<not> truthy h))
      else Inr False)"

definition getRequestBodySchema :: "json \<Rightarrow> error + json" where
  "getRequestBodySchema requestBody =
     bindE (readProp requestBody ''content'') (\<lambda>c.
     Inr (readOpt (readOpt c ''application/json'') ''schema''))"

definition calculateComplexity :: "json \<Rightarrow> error + jsnum" where
  "calculateComplexity operation =
     bindE (readProp operation ''parameters'') (\<lambda>ps.
     bindE (floorDiv3 (readOpt (orEmptyArray ps) ''length'')) (\<lambda>q.
     bindE (readProp operation ''requestBody'') (\<lambda>rb.
     bindE (if truthy rb
            then bindE (getRequestBodySchema rb) (\<lambda>schema.
                 Inr (if truthy (readOpt schema ''properties'') \<and>
                         5 < length (ownEntries (readOpt schema ''properties''))
                      then plusNum (plusNum (plusNum (Num 1) q) (Num 1)) (Num 1)
                      else plusNum (plusNum (Num 1) q) (Num 1)))
            else Inr (plusNum (Num 1) q)) (\<lambda>c.
     bindE (readProp operation ''responses'') (\<lambda>rs.
     Inr (if 3 < length (ownEntries (orEmptyObject rs)) then plusNum c (Num 1) else c))))))"

definition isCoreResource :: "string \<Rightarrow> json \<Rightarrow> bool" where
  "isCoreResource name schema =
     list_ex (\<lambda>pattern. includesStr (toLowerCase name) pattern)
       [''user'', ''account'', ''organization'', ''project'', ''product'']"

text \<open>
  \<^verbatim>\<open>ref.match(/#\/components\/schemas\/(.+)/)\<close>: the leftmost place where the prefix is
  followed by at least one character that is not a line terminator; the group is the
  longest run of such characters.
\<close>

definition lineTerminator :: "char \<Rightarrow> bool" where
  "lineTerminator c = (c = CHR 0x0A \<or> c = CHR 0x0D)"

fun matchSchemaRef :: "string \<Rightarrow> string option" where
  "matchSchemaRef [] = None"
| "matchSchemaRef (c # cs) =
     (if startsWith (c # cs) ''#/components/schemas/'' \<and>
         takeWhile (\<lambda>x. \<not> lineTerminator x) (drop 21 (c # cs)) \<noteq> []
      then Some (takeWhile (\<lambda>x. \<not> lineTerminator x) (drop 21 (c # cs)))
      else matchSchemaRef cs)"

fun extractRefName :: "json \<Rightarrow> error + string option" where
  "extractRefName (JStr ref) = Inr (matchSchemaRef ref)"
| "extractRefName v = Inl TypeError"

text \<open>\<^verbatim>\<open>if (refName && refName !== name) relationships.push(refName)\<close>\<close>

definition pushRef :: "string \<Rightarrow> string option \<Rightarrow> string list \<Rightarrow> string list" where
  "pushRef name refName rels =
     (case refName of
        None \<Rightarrow> rels
      | Some r \<Rightarrow> if r \<noteq> [] \<and> r \<noteq> name then rels @ [r] else rels)"

text \<open>\<^verbatim>\<open>[...new Set(xs)]\<close>: the first occurrence of each element, in order.\<close>

definition uniqueInOrder :: "'a list \<Rightarrow> 'a list" where
  "uniqueInOrder xs = fold (\<lambda>x acc. if x \<in> set acc then acc else acc @ [x]) xs []"

definition scanProperty :: "string \<Rightarrow> string \<times> json \<Rightarrow> string list \<Rightarrow> error + string list" where
  "scanProperty name entry rels =
     (let propSchema = snd entry in
      bindE (readProp propSchema ''$ref'') (\<lambda>r.
      bindE (if truthy r
             then bindE (extractRefName r) (\<lambda>refName. Inr (pushRef name refName rels))
             else Inr rels) (\<lambda>rels1.
      if readOpt propSchema ''type'' = JStr ''array'' \<and>
         truthy (readOpt (readOpt propSchema ''items'') ''$ref'')
      then bindE (extractRefName (readOpt (readOpt propSchema ''items'') ''$ref''))
             (\<lambda>refName. Inr (pushRef name refName rels1))
      else Inr rels1)))"

definition findSchemaRelationships :: "string \<Rightarrow> json \<Rightarrow> error + string list" where
  "findSchemaRelationships name schema =
     bindE (readProp schema ''properties'') (\<lambda>props.
     bindE (if truthy props then foldE (scanProperty name) (ownEntries props) [] else Inr [])
       (\<lambda>rels. Inr (uniqueInOrder rels)))"

definition refersTo :: "string \<Rightarrow> json \<Rightarrow> error + bool" where
  "refersTo relatedResource p =
     bindE (readProp p ''$ref'') (\<lambda>r.
     bindE (optIncludes r relatedResource) (\<lambda>a.
     if a then Inr True
     else optIncludes (readOpt (readOpt p ''items'') ''$ref'') relatedResource))"

definition determineRelationshipType :: "json \<Rightarrow> string \<Rightarrow> error + string" where
  "determineRelationshipType schema relatedResource =
     bindE (readProp schema ''properties'') (\<lambda>props.
     bindE (findKeyE (refersTo relatedResource) (ownEntries (orEmptyObject props))) (\<lambda>found.
     Inr (case found of
            None \<Rightarrow> ''unknown''
          | Some propName \<Rightarrow>
              if propName = [] then ''unknown''
              else if endsWith propName ''Id'' \<or> endsWith propName ''_id'' then ''belongs_to''
              else if endsWith propName ''s'' \<or> endsWith propName ''List'' then ''has_many''
              else ''has_one'')))"

text \<open>\<^verbatim>\<open>path.match(/^\/([^\/]+)/)\<close>: the token after the leading slash, when not empty.\<close>

fun firstSegment :: "string \<Rightarrow> string option" where
  "firstSegment [] = None"
| "firstSegment (c # cs) =
     (if c = CHR ''/'' \<and> takeWhile (\<lambda>x. x \<noteq> CHR ''/'') cs \<noteq> []
      then Some (takeWhile (\<lambda>x. x \<noteq> CHR ''/'') cs) else None)"

text \<open>The \<^verbatim>\<open>Map\<close> from resource to its endpoints, in insertion order.\<close>

fun addToGroup ::
  "string \<Rightarrow> AnalyzedEndpoint \<Rightarrow> (string \<times> AnalyzedEndpoint list) list \<Rightarrow>
   (string \<times> AnalyzedEndpoint list) list" where
  "addToGroup r e [] = [(r, [e])]"
| "addToGroup r e (g # gs) =
     (if fst g = r then (fst g, snd g @ [e]) # gs else g # addToGroup r e gs)"

definition groupByResource :: "AnalyzedEndpoint list \<Rightarrow> (string \<times> AnalyzedEndpoint list) list" where
  "groupByResource eps =
     fold (\<lambda>e gs. case firstSegment (ep_path e) of None \<Rightarrow> gs | Some r \<Rightarrow> addToGroup r e gs)
       eps []"

definition crudWorkflow :: "string \<Rightarrow> WorkflowPattern" where
  "crudWorkflow resource =
     \<lparr> wf_name = resource @ ''_crud'', wf_type = ''crud'',
       wf_steps =
         [\<lparr> step_action = ''list'', step_endpoint = Some (''GET /'' @ resource),
            step_description = None \<rparr>,
          \<lparr> step_action = ''create'', step_endpoint = Some (''POST /'' @ resource),
            step_description = None \<rparr>,
          \<lparr> step_action = ''read'', step_endpoint = Some (''GET /'' @ resource @ ''/{id}''),
            step_description = None \<rparr>,
          \<lparr> step_action = ''update'', step_endpoint = Some (''PUT /'' @ resource @ ''/{id}''),
            step_description = None \<rparr>,
          \<lparr> step_action = ''delete'',
            step_endpoint = Some (''DELETE /'' @ resource @ ''/{id}''),
            step_description = None \<rparr>] \<rparr>"

definition detectCRUDPatterns :: "AnalyzedEndpoint list \<Rightarrow> WorkflowPattern list" where
  "detectCRUDPatterns eps =
     map (\<lambda>g. crudWorkflow (fst g))
       (filter (\<lambda>g. ''GET'' \<in> set (map ep_method (snd g)) \<and>
                     ''POST'' \<in> set (map ep_method (snd g)) \<and>
                     ''PUT'' \<in> set (map ep_method (snd g)) \<and>
                     ''DELETE'' \<in> set (map ep_method (snd g)))
          (groupByResource eps))"

definition hasAuthenticationFlow :: "AnalyzedEndpoint list \<Rightarrow> bool" where
  "hasAuthenticationFlow eps =
     list_ex (\<lambda>e. includesStr (ep_path e) ''auth'' \<or> includesStr (ep_path e) ''login'' \<or>
                   includesStr (ep_path e) ''token'') eps"

definition describedStep :: "string \<Rightarrow> string \<Rightarrow> WorkflowStep" where
  "describedStep a d = \<lparr> step_action = a, step_endpoint = None, step_description = Some d \<rparr>"

definition buildAuthWorkflow :: "AnalyzedEndpoint list \<Rightarrow> WorkflowStep list" where
  "buildAuthWorkflow eps =
     [describedStep ''authenticate'' ''Obtain credentials'',
      describedStep ''validate'' ''Validate credentials'',
      describedStep ''authorize'' ''Get access token'',
      describedStep ''refresh'' ''Refresh token if needed'']"

definition hasPaginationParameters :: "json \<Rightarrow> error + bool" where
  "hasPaginationParameters operation =
     bindE (readProp operation ''parameters'') (\<lambda>ps.
     case orEmptyArray ps of
       JArr params \<Rightarrow>
         someE (\<lambda>p. bindE (readProp p ''name'') (\<lambda>n.
                     bindE (callToLowerCase n) (\<lambda>l.
                     Inr (l \<in> set [''page'', ''limit'', ''offset'', ''cursor''])))) params
     | _ \<Rightarrow> Inl TypeError)"

definition hasPaginationPattern :: "AnalyzedEndpoint list \<Rightarrow> error + bool" where
  "hasPaginationPattern eps = someE (\<lambda>e. hasPaginationParameters (ep_operation e)) eps"

definition buildPaginationWorkflow :: "AnalyzedEndpoint list \<Rightarrow> WorkflowStep list" where
  "buildPaginationWorkflow eps =
     [describedStep ''initial_request'' ''Fetch first page'',
      describedStep ''check_more'' ''Check if more pages exist'',
      describedStep ''fetch_next'' ''Fetch next page'',
      describedStep ''aggregate'' ''Combine results'']"

definition hasFileUploadPattern :: "AnalyzedEndpoint list \<Rightarrow> bool" where
  "hasFileUploadPattern eps =
     list_ex (\<lambda>e. truthy (readOpt (readOpt (readOpt (ep_operation e) ''requestBody'')
                                     ''content'') ''multipart/form-data'')) eps"

definition buildFileUploadWorkflow :: "AnalyzedEndpoint list \<Rightarrow> WorkflowStep list" where
  "buildFileUploadWorkflow eps =
     [describedStep ''prepare'' ''Prepare file for upload'',
      describedStep ''validate'' ''Validate file requirements'',
      describedStep ''upload'' ''Upload file'',
      describedStep ''verify'' ''Verify upload success'']"

definition isRecoverableError :: "string \<Rightarrow> json \<Rightarrow> error + json" where
  "isRecoverableError statusCode response =
     (if statusCode \<in> set [''429'', ''503'', ''504''] then Inr (JBool True)
      else bindE (readProp response ''description'') (\<lambda>d. lowerIncludes d ''retry''))"

section \<open>The passes of the analysis\<close>

text \<open>
  Each pass mutates the analysis object it is given; here it takes the object and returns
  the updated one, or the exception it raised. The document is \<^verbatim>\<open>this.spec\<close>.
  Logging is left out.
\<close>

definition analyzeOperation ::
  "string \<Rightarrow> string \<times> json \<Rightarrow> SpecAnalysis \<Rightarrow> error + SpecAnalysis" where
  "analyzeOperation path entry analysis =
     (if isOperation (snd entry)
      then bindE (isActionEndpoint (fst entry) (snd entry)) (\<lambda>act.
           bindE (isResourceEndpoint (fst entry) (snd entry)) (\<lambda>res.
           bindE (calculateComplexity (snd entry)) (\<lambda>c.
           Inr (analysis
                  \<lparr> endpoints := endpoints analysis @
                       [\<lparr> ep_path = path, ep_method = toUpperCase (fst entry),
                          ep_operation = snd entry, ep_isAction = act, ep_isResource = res,
                          ep_complexity = c \<rparr>],
                    hasTools := (if truthy act \<or> numGreater c 2 then True
                                 else hasTools analysis) \<rparr>))))
      else Inr analysis)"

definition analyzePathItem :: "string \<times> json \<Rightarrow> SpecAnalysis \<Rightarrow> error + SpecAnalysis" where
  "analyzePathItem entry analysis =
     bindE (entries (snd entry)) (\<lambda>ops. foldE (analyzeOperation (fst entry)) ops analysis)"

definition analyzePaths :: "json \<Rightarrow> SpecAnalysis \<Rightarrow> error + SpecAnalysis" where
  "analyzePaths spec analysis =
     bindE (readProp spec ''paths'') (\<lambda>paths.
     foldE analyzePathItem (ownEntries (orEmptyObject paths)) analysis)"

definition analyzeSchema :: "string \<times> json \<Rightarrow> SpecAnalysis \<Rightarrow> error + SpecAnalysis" where
  "analyzeSchema entry analysis =
     bindE (findSchemaRelationships (fst entry) (snd entry)) (\<lambda>rels.
     Inr (analysis
            \<lparr> resources := resources analysis @
                 [\<lparr> res_name = fst entry, res_schema = snd entry,
                    res_isCore = isCoreResource (fst entry) (snd entry),
                    res_relationships = rels \<rparr>],
              hasResources := True \<rparr>))"

definition analyzeSchemas :: "json \<Rightarrow> SpecAnalysis \<Rightarrow> error + SpecAnalysis" where
  "analyzeSchemas spec analysis =
     bindE (readProp spec ''components'') (\<lambda>components.
     foldE analyzeSchema (ownEntries (orEmptyObject (readOpt components ''schemas''))) analysis)"

definition detectWorkflows :: "SpecAnalysis \<Rightarrow> error + SpecAnalysis" where
  "detectWorkflows analysis =
     (let eps = endpoints analysis;
          w1 = workflows analysis @ detectCRUDPatterns eps;
          w2 = (if hasAuthenticationFlow eps
                then w1 @ [\<lparr> wf_name = ''authentication'', wf_type = ''auth'',
                             wf_steps = buildAuthWorkflow eps \<rparr>]
                else w1)
      in bindE (hasPaginationPattern eps) (\<lambda>paginated.
         let w3 = (if paginated
                   then w2 @ [\<lparr> wf_name = ''pagination'', wf_type = ''navigation'',
                                wf_steps = buildPaginationWorkflow eps \<rparr>]
                   else w2);
             w4 = (if hasFileUploadPattern eps
                   then w3 @ [\<lparr> wf_name = ''fileUpload'', wf_type = ''multipart'',
                                wf_steps = buildFileUploadWorkflow eps \<rparr>]
                   else w3)
         in Inr (analysis \<lparr> workflows := w4,
                            hasPrompts := (if 0 < length w4 then True
                                           else hasPrompts analysis) \<rparr>)))"

definition relateResource ::
  "AnalyzedResource \<Rightarrow> string \<Rightarrow> SpecAnalysis \<Rightarrow> error + SpecAnalysis" where
  "relateResource resource relatedResource analysis =
     bindE (determineRelationshipType (res_schema resource) relatedResource) (\<lambda>t.
     Inr (analysis
            \<lparr> relationships := relationships analysis @
                 [\<lparr> rel_from = res_name resource, rel_to = relatedResource,
                    rel_type = t \<rparr>] \<rparr>))"

definition analyzeRelationships :: "SpecAnalysis \<Rightarrow> error + SpecAnalysis" where
  "analyzeRelationships analysis =
     foldE (\<lambda>resource. foldE (relateResource resource) (res_relationships resource))
       (resources analysis) analysis"

definition detectErrorPattern ::
  "AnalyzedEndpoint \<Rightarrow> string \<times> json \<Rightarrow> SpecAnalysis \<Rightarrow> error + SpecAnalysis" where
  "detectErrorPattern endpoint entry analysis =
     (if startsWith (fst entry) ''4'' \<or> startsWith (fst entry) ''5''
      then bindE (readProp (snd entry) ''description'') (\<lambda>d.
           bindE (isRecoverableError (fst entry) (snd entry)) (\<lambda>rec.
           Inr (analysis
                  \<lparr> errorPatterns := errorPatterns analysis @
                       [\<lparr> err_statusCode = fst entry,
                          err_endpoint = ep_method endpoint @ '' '' @ ep_path endpoint,
                          err_description = (if truthy d then d else JStr []),
                          err_recoverable = rec \<rparr>] \<rparr>)))
      else Inr analysis)"

definition detectErrorPatterns :: "SpecAnalysis \<Rightarrow> error + SpecAnalysis" where
  "detectErrorPatterns analysis =
     foldE (\<lambda>endpoint a.
              bindE (readProp (ep_operation endpoint) ''responses'') (\<lambda>responses.
              foldE (detectErrorPattern endpoint) (ownEntries (orEmptyObject responses)) a))
       (endpoints analysis) analysis"

definition declaresRateLimit :: "json \<Rightarrow> error + bool" where
  "declaresRateLimit r =
     bindE (readProp r ''headers'') (\<lambda>h.
     Inr (truthy (readOpt h ''X-RateLimit-Limit'') \<or> truthy (readOpt h ''RateLimit-Limit'')))"

definition analyzeCapabilities :: "json \<Rightarrow> SpecAnalysis \<Rightarrow> error + SpecAnalysis" where
  "analyzeCapabilities spec analysis =
     (let eps = endpoints analysis in
      bindE (someE (\<lambda>e. hasPaginationParameters (ep_operation e)) eps) (\<lambda>pagination.
      bindE (readProp spec ''webhooks'') (\<lambda>webhooks.
      bindE (readProp spec ''components'') (\<lambda>components.
      bindE (someE (\<lambda>e. bindE (readProp (ep_operation e) ''responses'') (\<lambda>responses.
                          someE declaresRateLimit
                            (map snd (ownEntries (orEmptyObject responses))))) eps)
        (\<lambda>rateLimiting.
      Inr (analysis
             \<lparr> capabilities := capabilities analysis
                  \<lparr> hasPagination := pagination,
                    hasBatchOperations :=
                      list_ex (\<lambda>e. includesStr (ep_path e) ''batch'' \<or>
                                    includesStr (ep_path e) ''bulk'') eps,
                    hasWebhooks :=
                      (truthy webhooks \<or>
                       list_ex (\<lambda>e. includesStr (ep_path e) ''webhook'') eps),
                    hasAsyncOperations :=
                      list_ex (\<lambda>e. readOpt (readOpt (ep_operation e) ''responses'') ''202''
                                    \<noteq> JUndefined) eps,
                    hasAuthentication := truthy (readOpt components ''securitySchemes''),
                    hasRateLimiting := rateLimiting \<rparr> \<rparr>))))))"

definition determineMCPFeatures :: "SpecAnalysis \<Rightarrow> SpecAnalysis" where
  "determineMCPFeatures analysis =
     analysis
       \<lparr> requiresSampling :=
           (if 2 < length (workflows analysis) \<or> hasAsyncOperations (capabilities analysis)
            then Some True else requiresSampling analysis),
         requiresContextManagement :=
           (if 3 < length (relationships analysis) then Some True
            else requiresContextManagement analysis),
         requiresErrorIntelligence :=
           (if 5 < length (errorPatterns analysis) then Some True
            else requiresErrorIntelligence analysis) \<rparr>"

section \<open>analyze and analyzeWithContext\<close>

text \<open>The model \<^verbatim>\<open>analyze()\<close> builds for the document \<open>spec\<close>, or the exception it raises.\<close>

definition analyze :: "json \<Rightarrow> error + SpecAnalysis" where
  "analyze spec =
     bindE (analyzePaths spec initialAnalysis) (\<lambda>a1.
     bindE (analyzeSchemas spec a1) (\<lambda>a2.
     bindE (detectWorkflows a2) (\<lambda>a3.
     bindE (analyzeRelationships a3) (\<lambda>a4.
     bindE (detectErrorPatterns a4) (\<lambda>a5.
     bindE (analyzeCapabilities spec a5) (\<lambda>a6.
     Inr (determineMCPFeatures a6)))))))"

text \<open>
  The models live on the heap: a store lists the model objects allocated so far, and a
  reference to a model is its index. The parts of a model that the analyzer assigns to
  (its lists and its capabilities) are created by the call that creates the model and are
  shared with no other model, so a model is held as one value. \<^verbatim>\<open>analyze()\<close> allocates a
  new object and returns the reference to it; an object under construction is reachable
  from nowhere else, so an analysis that throws leaves the store as it was.
  \<^verbatim>\<open>analyzeWithContext(context)\<close> calls \<^verbatim>\<open>analyze()\<close> and then assigns to the capabilities
  of the object it got back, in place; when reading the context throws, that object stays
  on the store and no reference is returned.
\<close>

type_synonym store = "SpecAnalysis list"

definition analyzeRef :: "json \<Rightarrow> store \<Rightarrow> (error + nat) \<times> store" where
  "analyzeRef spec st =
     (case analyze spec of
        Inl e \<Rightarrow> (Inl e, st)
      | Inr m \<Rightarrow> (Inr (length st), st @ [m]))"

definition setStrictValidation :: "SpecAnalysis \<Rightarrow> SpecAnalysis" where
  "setStrictValidation m = m \<lparr> capabilities := capabilities m \<lparr> requiresStrictValidation := Some True \<rparr> \<rparr>"

definition setTestMode :: "SpecAnalysis \<Rightarrow> SpecAnalysis" where
  "setTestMode m = m \<lparr> capabilities := capabilities m \<lparr> hasTestMode := Some True \<rparr> \<rparr>"

text \<open>\<^verbatim>\<open>context.roots?.some((r) => r.name.includes('test'))\<close>, read for its truth value.\<close>

definition someRootNamedTest :: "json \<Rightarrow> error + bool" where
  "someRootNamedTest roots =
     (if nullish roots then Inr False
      else case roots of
             JArr rs \<Rightarrow> someE (\<lambda>r. bindE (readProp r ''name'') (\<lambda>n. callIncludes n ''test'')) rs
           | _ \<Rightarrow> Inl TypeError)"

definition analyzeWithContextRef :: "json \<Rightarrow> json \<Rightarrow> store \<Rightarrow> (error + nat) \<times> store" where
  "analyzeWithContextRef spec ctx st =
     (case analyzeRef spec st of
        (Inl e, st1) \<Rightarrow> (Inl e, st1)
      | (Inr baseAnalysis, st1) \<Rightarrow>
          (case readProp ctx ''environment'' of
             Inl e \<Rightarrow> (Inl e, st1)
           | Inr env \<Rightarrow>
               (let st2 = (if env = JStr ''production''
                           then st1[baseAnalysis := setStrictValidation (st1 ! baseAnalysis)]
                           else st1)
                in case bindE (readProp ctx ''roots'') someRootNamedTest of
                     Inl e \<Rightarrow> (Inl e, st2)
                   | Inr t \<Rightarrow>
                       (Inr baseAnalysis,
                        if t then st2[baseAnalysis := setTestMode (st2 ! baseAnalysis)]
                        else st2))))"

section \<open>Types of the input, and example documents\<close>

text \<open>
  \<^verbatim>\<open>Operation.parameters\<close> is declared optional and, when present, an array
  (\<^verbatim>\<open>src/types/openapi.ts\<close>).
\<close>

definition parametersWellTyped :: "json \<Rightarrow> bool" where
  "parametersWellTyped operation =
     (case readOpt operation ''parameters'' of
        JUndefined \<Rightarrow> True | JArr ps \<Rightarrow> True | _ \<Rightarrow> False)"

text \<open>A root as the context manager declares it: \<^verbatim>\<open>interface Root { uri; name }\<close>.\<close>

definition rootObject :: "string \<times> string \<Rightarrow> json" where
  "rootObject r = JObj [(''uri'', JStr (fst r)), (''name'', JStr (snd r))]"

text \<open>
  One GET operation whose only parameter is a reference object, which the declared type
  \<^verbatim>\<open>Array<Parameter | Reference>\<close> admits and which has no \<^verbatim>\<open>name\<close>.
\<close>

definition referenceParameterDoc :: json where
  "referenceParameterDoc =
     JObj [(''openapi'', JStr ''3.0.0''),
           (''paths'', JObj [(''/items'', JObj [(''get'',
              JObj [(''responses'', JObj []),
                    (''parameters'',
                     JArr [JObj [(''$ref'', JStr ''#/components/parameters/limit'')]])])])])]"

text \<open>A document with no \<^verbatim>\<open>paths\<close> section.\<close>

definition noPathsDoc :: json where
  "noPathsDoc =
     JObj [(''openapi'', JStr ''3.0.0''),
           (''info'', JObj [(''title'', JStr ''Empty''), (''version'', JStr ''1.0.0'')])]"

text \<open>A path with a HEAD operation.\<close>

definition headDoc :: json where
  "headDoc =
     JObj [(''paths'', JObj [(''/status'', JObj [(''head'',
              JObj [(''responses'', JObj [(''200'', JObj [(''description'', JStr ''OK'')])])])])])]"

text \<open>One GET operation with a query parameter named \<^verbatim>\<open>page\<close>.\<close>

definition pageParameterDoc :: json where
  "pageParameterDoc =
     JObj [(''paths'', JObj [(''/items'', JObj [(''get'',
              JObj [(''responses'', JObj []),
                    (''parameters'',
                     JArr [JObj [(''name'', JStr ''page''), (''in'', JStr ''query'')]])])])])]"

text \<open>
  The schema \<^verbatim>\<open>Order\<close> refers to \<^verbatim>\<open>Customer\<close>, to itself and, through an array, to
  \<^verbatim>\<open>Item\<close>; the schema set holds \<^verbatim>\<open>Order\<close> and \<^verbatim>\<open>Item\<close> only.
\<close>

definition ordersDoc :: json where
  "ordersDoc =
     JObj [(''paths'', JObj []),
           (''components'', JObj [(''schemas'', JObj
              [(''Order'', JObj [(''properties'', JObj
                  [(''customer'', JObj [(''$ref'', JStr ''#/components/schemas/Customer'')]),
                   (''parent'', JObj [(''$ref'', JStr ''#/components/schemas/Order'')]),
                   (''items'', JObj [(''type'', JStr ''array''),
                                     (''items'', JObj [(''$ref'', JStr ''#/components/schemas/Item'')])])])]),
               (''Item'', JObj [(''type'', JStr ''object'')])])])]"

text \<open>
  Two operations that differ in their responses only: three parameters and no request
  body, with one response and with four.
\<close>

definition threeParameters :: json where
  "threeParameters =
     JArr [JObj [(''name'', JStr ''id''), (''in'', JStr ''path'')],
           JObj [(''name'', JStr ''fields''), (''in'', JStr ''query'')],
           JObj [(''name'', JStr ''sort''), (''in'', JStr ''query'')]]"

definition oneResponseOperation :: json where
  "oneResponseOperation =
     JObj [(''summary'', JStr ''Read an item''),
           (''parameters'', threeParameters),
           (''responses'', JObj [(''200'', JObj [(''description'', JStr ''OK'')])])]"

definition fourResponsesOperation :: json where
  "fourResponsesOperation =
     JObj [(''summary'', JStr ''Read an item''),
           (''parameters'', threeParameters),
           (''responses'',
            JObj [(''200'', JObj [(''description'', JStr ''OK'')]),
                  (''401'', JObj [(''description'', JStr ''Unauthorized'')]),
                  (''404'', JObj [(''description'', JStr ''Not found'')]),
                  (''429'', JObj [(''description'', JStr ''Too many requests'')])])]"

text \<open>A context snapshot: the production environment and two roots.\<close>

definition productionContext :: json where
  "productionContext =
     JObj [(''environment'', JStr ''production''),
           (''roots'', JArr (map rootObject [(''file:///srv/api'', ''api''),
                                             (''file:///srv/test-data'', ''test-data'')]))]"

section \<open>Basic facts\<close>

lemma bindE_Inr: "bindE m f = Inr y \<longleftrightarrow> (\<exists>x. m = Inr x \<and> f x = Inr y)"
  by (cases m) (simp_all add: bindE_def)

lemma bindE_simps [simp]: "bindE (Inr x) f = f x" "bindE (Inl e) f = Inl e"
  by (simp_all add: bindE_def)

lemma truthy_not_nullish: "truthy v \<Longrightarrow> \<not> nullish v"
  by (cases v) simp_all

lemma readProp_Inr: "\<not> nullish v \<Longrightarrow> readProp v k = Inr (readOpt v k)"
  by (simp add: readProp_def)

text \<open>A property that every iteration of a loop keeps holds after the loop.\<close>

lemma foldE_invariant:
  assumes "foldE f xs s = Inr s'" and "P s"
    and "\<And>x t t'. x \<in> set xs \<Longrightarrow> P t \<Longrightarrow> f x t = Inr t' \<Longrightarrow> P t'"
  shows "P s'"
  using assms
proof (induction xs arbitrary: s)
  case Nil
  then show ?case by simp
next
  case (Cons x xs)
  from Cons.prems(1) obtain t where t: "f x s = Inr t" and rest: "foldE f xs t = Inr s'"
    by (auto split: sum.splits)
  have pt: "P t" using Cons.prems(3) [of x s t] Cons.prems(2) t by simp
  show ?case
  proof (rule Cons.IH [OF rest pt])
    fix y u u'
    assume "y \<in> set xs" "P u" "f y u = Inr u'"
    then show "P u'" using Cons.prems(3) [of y u u'] by simp
  qed
qed

lemma foldE_preserves:
  assumes "foldE f xs s = Inr s'"
    and "\<And>x t t'. f x t = Inr t' \<Longrightarrow> g t' = g t"
  shows "g s' = g s"
proof (rule foldE_invariant [where P = "\<lambda>t. g t = g s", OF assms(1)])
  show "g s = g s" by simp
next
  fix x t t'
  assume "g t = g s" "f x t = Inr t'"
  then show "g t' = g s" using assms(2) [of x t t'] by simp
qed

section \<open>What each pass leaves unchanged\<close>

lemma analyzeOperation_frame:
  "analyzeOperation path entry a = Inr a' \<Longrightarrow>
   (resources a', relationships a', hasResources a') =
   (resources a, relationships a, hasResources a)"
  by (auto simp: analyzeOperation_def bindE_Inr split: if_splits)

lemma analyzePathItem_frame:
  "analyzePathItem it a = Inr a' \<Longrightarrow>
   (resources a', relationships a', hasResources a') =
   (resources a, relationships a, hasResources a)"
  unfolding analyzePathItem_def bindE_Inr
  by (elim exE conjE, erule foldE_preserves) (rule analyzeOperation_frame)

lemma analyzePaths_frame:
  "analyzePaths spec a = Inr a' \<Longrightarrow>
   (resources a', relationships a', hasResources a') =
   (resources a, relationships a, hasResources a)"
  unfolding analyzePaths_def bindE_Inr
  by (elim exE conjE, erule foldE_preserves) (rule analyzePathItem_frame)

lemma analyzeSchema_frame:
  "analyzeSchema entry a = Inr a' \<Longrightarrow>
   (endpoints a', relationships a') = (endpoints a, relationships a)"
  by (auto simp: analyzeSchema_def bindE_Inr)

lemma analyzeSchemas_frame:
  "analyzeSchemas spec a = Inr a' \<Longrightarrow>
   (endpoints a', relationships a') = (endpoints a, relationships a)"
  unfolding analyzeSchemas_def bindE_Inr
  by (elim exE conjE, erule foldE_preserves) (rule analyzeSchema_frame)

lemma detectWorkflows_Inr:
  "detectWorkflows a = Inr a' \<Longrightarrow>
   \<exists>ws. a' = a\<lparr>workflows := ws,
                  hasPrompts := (if 0 < length ws then True else hasPrompts a)\<rparr>"
  unfolding detectWorkflows_def bindE_Inr Let_def by blast

lemma detectWorkflows_frame:
  "detectWorkflows a = Inr a' \<Longrightarrow>
   (endpoints a', resources a', relationships a', hasResources a') =
   (endpoints a, resources a, relationships a, hasResources a)"
  by (drule detectWorkflows_Inr) auto

lemma relateResource_frame:
  "relateResource res r a = Inr a' \<Longrightarrow>
   (endpoints a', resources a', hasResources a') = (endpoints a, resources a, hasResources a)"
  by (auto simp: relateResource_def bindE_Inr)

lemma analyzeRelationships_frame:
  "analyzeRelationships a = Inr a' \<Longrightarrow>
   (endpoints a', resources a', hasResources a') = (endpoints a, resources a, hasResources a)"
  unfolding analyzeRelationships_def
  by (erule foldE_preserves, erule foldE_preserves) (rule relateResource_frame)

lemma detectErrorPattern_Inr:
  assumes "detectErrorPattern ep entry a = Inr a'"
  shows "\<exists>ps. a' = a\<lparr>errorPatterns := ps\<rparr>"
proof (cases "startsWith (fst entry) ''4'' \<or> startsWith (fst entry) ''5''")
  case True
  with assms obtain d r where
    "a' = a\<lparr>errorPatterns := errorPatterns a @
            [\<lparr>err_statusCode = fst entry,
               err_endpoint = ep_method ep @ '' '' @ ep_path ep,
               err_description = (if truthy d then d else JStr []),
               err_recoverable = r\<rparr>]\<rparr>"
    unfolding detectErrorPattern_def by (simp only: if_True bindE_Inr) blast
  then show ?thesis by blast
next
  case False
  with assms have "a' = a" unfolding detectErrorPattern_def by simp
  then show ?thesis by (intro exI [of _ "errorPatterns a"]) simp
qed

lemma detectErrorPattern_frame:
  "detectErrorPattern ep entry a = Inr a' \<Longrightarrow>
   (endpoints a', resources a', relationships a', hasResources a') =
   (endpoints a, resources a, relationships a, hasResources a)"
  by (drule detectErrorPattern_Inr) auto

lemma detectErrorPatterns_frame:
  "detectErrorPatterns a = Inr a' \<Longrightarrow>
   (endpoints a', resources a', relationships a', hasResources a') =
   (endpoints a, resources a, relationships a, hasResources a)"
  unfolding detectErrorPatterns_def
  apply (erule foldE_preserves)
  unfolding bindE_Inr
  by (elim exE conjE, erule foldE_preserves) (rule detectErrorPattern_frame)

lemma analyzeCapabilities_Inr:
  "analyzeCapabilities spec a = Inr a' \<Longrightarrow> \<exists>c. a' = a\<lparr>capabilities := c\<rparr>"
  unfolding analyzeCapabilities_def bindE_Inr Let_def by blast

lemma analyzeCapabilities_frame:
  "analyzeCapabilities spec a = Inr a' \<Longrightarrow>
   (endpoints a', resources a', relationships a', hasResources a') =
   (endpoints a, resources a, relationships a, hasResources a)"
  by (drule analyzeCapabilities_Inr) auto

lemma determineMCPFeatures_frame:
  "(endpoints (determineMCPFeatures a), resources (determineMCPFeatures a),
    relationships (determineMCPFeatures a), hasResources (determineMCPFeatures a)) =
   (endpoints a, resources a, relationships a, hasResources a)"
  by (simp add: determineMCPFeatures_def)

text \<open>
  A successful analysis ran its passes in order, and the endpoints, resources and
  relationships of the model are those of the pass that fills them.
\<close>

lemma analyze_passes:
  assumes "analyze spec = Inr m"
  obtains a1 a2 a3 a4 where
    "analyzePaths spec initialAnalysis = Inr a1"
    "analyzeSchemas spec a1 = Inr a2"
    "detectWorkflows a2 = Inr a3"
    "analyzeRelationships a3 = Inr a4"
    "endpoints m = endpoints a1"
    "resources m = resources a2" "resources a3 = resources a2"
    "hasResources m = hasResources a2"
    "relationships m = relationships a4" "relationships a3 = []"
    "resources a1 = []" "hasResources a1 = False"
proof -
  from assms obtain a1 a2 a3 a4 a5 a6 where p:
    "analyzePaths spec initialAnalysis = Inr a1"
    "analyzeSchemas spec a1 = Inr a2"
    "detectWorkflows a2 = Inr a3"
    "analyzeRelationships a3 = Inr a4"
    "detectErrorPatterns a4 = Inr a5"
    "analyzeCapabilities spec a5 = Inr a6"
    "m = determineMCPFeatures a6"
    unfolding analyze_def bindE_Inr by auto
  note f = analyzePaths_frame [OF p(1)] analyzeSchemas_frame [OF p(2)]
    detectWorkflows_frame [OF p(3)] analyzeRelationships_frame [OF p(4)]
    detectErrorPatterns_frame [OF p(5)] analyzeCapabilities_frame [OF p(6)]
    determineMCPFeatures_frame [of a6]
  show ?thesis
    using f p(7) by (intro that [OF p(1-4)]) (simp_all add: initialAnalysis_def)
qed

section \<open>When analysis fails\<close>

text \<open>
  C1. Analysis is claimed never to throw on a structurally valid but incomplete document,
  such as one whose operations have parameters without a name. The analyzer reads
  \<^verbatim>\<open>p.name.toLowerCase()\<close> for every parameter, without the guard it uses for summaries
  and descriptions: on a document whose operation has a reference object as parameter,
  \<^verbatim>\<open>analyze()\<close> throws a \<^verbatim>\<open>TypeError\<close> and returns no model.
\<close>

theorem analyze_throws_on_unnamed_parameter:
  "analyze referenceParameterDoc = Inl TypeError"
  by code_simp

lemma readOpt_added_paths:
  "k \<noteq> ''paths'' \<Longrightarrow> readOpt (JObj (kvs @ [(''paths'', v)])) k = readOpt (JObj kvs) k"
  by (simp add: map_add_def split: option.splits)

lemma analyzePaths_absent:
  assumes "map_of kvs ''paths'' = None"
  shows "analyzePaths (JObj kvs) a = Inr a"
    and "analyzePaths (JObj (kvs @ [(''paths'', JObj [])])) a = Inr a"
  using assms by (simp_all add: analyzePaths_def readProp_def orEmptyObject_def map_add_def)

text \<open>
  C2, as amended. The claim was that a document that is not an object, or has no
  \<^verbatim>\<open>paths\<close> section, makes \<^verbatim>\<open>analyze()\<close> fail with a distinct "invalid specification
  document" error. The analyzer has no such error. A document that is an object without a
  \<^verbatim>\<open>paths\<close> property is analyzed as if \<^verbatim>\<open>paths\<close> were empty: the outcome, model or
  exception, is that of the same document with an empty \<^verbatim>\<open>paths\<close> section, and a
  returned model has no endpoints. A document that is \<^verbatim>\<open>null\<close> or \<^verbatim>\<open>undefined\<close> makes
  \<^verbatim>\<open>analyze()\<close> throw a \<^verbatim>\<open>TypeError\<close>, and nothing is returned.
\<close>

theorem absent_paths_analyzed_as_empty:
  assumes "map_of kvs ''paths'' = None"
  shows "analyze (JObj kvs) = analyze (JObj (kvs @ [(''paths'', JObj [])])) \<and>
         (\<forall>m. analyze (JObj kvs) = Inr m \<longrightarrow> endpoints m = []) \<and>
         analyze JNull = Inl TypeError \<and> analyze JUndefined = Inl TypeError"
proof -
  have s: "analyzeSchemas (JObj (kvs @ [(''paths'', JObj [])])) a = analyzeSchemas (JObj kvs) a"
    for a
    by (simp add: analyzeSchemas_def readProp_def readOpt_added_paths del: readOpt.simps)
  have c: "analyzeCapabilities (JObj (kvs @ [(''paths'', JObj [])])) a =
           analyzeCapabilities (JObj kvs) a" for a
    by (simp add: analyzeCapabilities_def readProp_def readOpt_added_paths del: readOpt.simps)
  have same: "analyze (JObj kvs) = analyze (JObj (kvs @ [(''paths'', JObj [])]))"
    by (simp add: analyze_def analyzePaths_absent [OF assms] s c)
  have none: "endpoints m = []" if "analyze (JObj kvs) = Inr m" for m
  proof -
    from that obtain a1 a2 a3 a4 where p:
    "analyzePaths (JObj kvs) initialAnalysis = Inr a1"
    "analyzeSchemas (JObj kvs) a1 = Inr a2"
    "detectWorkflows a2 = Inr a3"
    "analyzeRelationships a3 = Inr a4"
    "endpoints m = endpoints a1"
    "resources m = resources a2" "resources a3 = resources a2"
    "hasResources m = hasResources a2"
    "relationships m = relationships a4" "relationships a3 = []"
    "resources a1 = []" "hasResources a1 = False"
    by (rule analyze_passes)
    from p(1) have "a1 = initialAnalysis"
      by (simp add: analyzePaths_absent [OF assms])
    with p(5) show ?thesis by (simp add: initialAnalysis_def)
  qed
  have "analyze JNull = Inl TypeError" "analyze JUndefined = Inl TypeError"
    by (simp_all add: analyze_def analyzePaths_def readProp_def)
  with same none show ?thesis by blast
qed

theorem absent_paths_witness:
  "map_of [(''openapi'', JStr ''3.0.0'')] ''paths'' = None \<and>
   analyze (JObj [(''openapi'', JStr ''3.0.0'')]) =
     analyze (JObj [(''openapi'', JStr ''3.0.0''), (''paths'', JObj [])]) \<and>
   analyze (JObj [(''openapi'', JStr ''3.0.0'')]) = Inr initialAnalysis \<and>
   endpoints initialAnalysis = []"
proof -
  have h: "map_of [(''openapi'', JStr ''3.0.0'')] ''paths'' = None" by simp
  have e: "analyze (JObj [(''openapi'', JStr ''3.0.0'')]) = Inr initialAnalysis" by code_simp
  from absent_paths_analyzed_as_empty [OF h] h e show ?thesis by simp
qed

text \<open>
  The claim of C2 fails on a document without a \<^verbatim>\<open>paths\<close> section: \<^verbatim>\<open>analyze()\<close> returns
  the empty model.
\<close>

theorem analyze_returns_model_without_paths:
  "analyze noPathsDoc = Inr initialAnalysis \<and> readOpt noPathsDoc ''paths'' = JUndefined"
  by code_simp

section \<open>Endpoints\<close>

lemma foldE_analyzeOperation_endpoints:
  "foldE (analyzeOperation path) ops a = Inr a' \<Longrightarrow>
   map (\<lambda>e. (ep_path e, ep_method e, ep_operation e)) (endpoints a') =
   map (\<lambda>e. (ep_path e, ep_method e, ep_operation e)) (endpoints a) @
   map (\<lambda>op. (path, toUpperCase (fst op), snd op)) (filter (\<lambda>op. isOperation (snd op)) ops)"
proof (induction ops arbitrary: a)
  case Nil
  then show ?case by simp
next
  case (Cons x ops)
  from Cons.prems obtain t where t: "analyzeOperation path x a = Inr t"
    and r: "foldE (analyzeOperation path) ops t = Inr a'"
    by (auto split: sum.splits)
  from t have "map (\<lambda>e. (ep_path e, ep_method e, ep_operation e)) (endpoints t) =
    map (\<lambda>e. (ep_path e, ep_method e, ep_operation e)) (endpoints a) @
    (if isOperation (snd x) then [(path, toUpperCase (fst x), snd x)] else [])"
    by (auto simp: analyzeOperation_def bindE_Inr split: if_splits)
  with Cons.IH [OF r] show ?case by simp
qed

lemma foldE_analyzePathItem_endpoints:
  "foldE analyzePathItem items a = Inr a' \<Longrightarrow>
   map (\<lambda>e. (ep_path e, ep_method e, ep_operation e)) (endpoints a') =
   map (\<lambda>e. (ep_path e, ep_method e, ep_operation e)) (endpoints a) @
   concat (map (\<lambda>item. map (\<lambda>op. (fst item, toUpperCase (fst op), snd op))
                          (filter (\<lambda>op. isOperation (snd op)) (ownEntries (snd item)))) items)"
proof (induction items arbitrary: a)
  case Nil
  then show ?case by simp
next
  case (Cons x items)
  from Cons.prems obtain t where t: "analyzePathItem x a = Inr t"
    and r: "foldE analyzePathItem items t = Inr a'"
    by (auto split: sum.splits)
  from t have "foldE (analyzeOperation (fst x)) (ownEntries (snd x)) a = Inr t"
    by (auto simp: analyzePathItem_def entries_def bindE_Inr split: if_splits)
  from foldE_analyzeOperation_endpoints [OF this] Cons.IH [OF r] show ?case by simp
qed

text \<open>
  C3, as amended. The claim was that every endpoint's method is one of GET, POST, PUT,
  DELETE, PATCH and that entries under any other key are never emitted. The analyzer does
  not look at the key: whenever \<^verbatim>\<open>analyze()\<close> returns a model, its endpoints are, in
  order, exactly the entries of the path items whose value is operation-like (an object
  with a \<^verbatim>\<open>summary\<close>, a \<^verbatim>\<open>description\<close> or a \<^verbatim>\<open>responses\<close> property), each with its path,
  its key in upper case as the method, and its value as the operation. Entries under
  \<^verbatim>\<open>head\<close>, \<^verbatim>\<open>options\<close>, \<^verbatim>\<open>trace\<close> or any other key are endpoints as well.
\<close>

theorem endpoints_are_the_operation_entries:
  assumes "analyze spec = Inr m"
  shows "map (\<lambda>e. (ep_path e, ep_method e, ep_operation e)) (endpoints m) =
         concat (map (\<lambda>item. map (\<lambda>op. (fst item, toUpperCase (fst op), snd op))
                                (filter (\<lambda>op. isOperation (snd op)) (ownEntries (snd item))))
                   (ownEntries (orEmptyObject (readOpt spec ''paths''))))"
proof -
  from assms obtain a1 a2 a3 a4 where p:
    "analyzePaths spec initialAnalysis = Inr a1"
    "analyzeSchemas spec a1 = Inr a2"
    "detectWorkflows a2 = Inr a3"
    "analyzeRelationships a3 = Inr a4"
    "endpoints m = endpoints a1"
    "resources m = resources a2" "resources a3 = resources a2"
    "hasResources m = hasResources a2"
    "relationships m = relationships a4" "relationships a3 = []"
    "resources a1 = []" "hasResources a1 = False"
    by (rule analyze_passes)
  from p(1) have "foldE analyzePathItem (ownEntries (orEmptyObject (readOpt spec ''paths'')))
      initialAnalysis = Inr a1"
    by (auto simp: analyzePaths_def bindE_Inr readProp_def split: if_splits)
  from foldE_analyzePathItem_endpoints [OF this] p(5) show ?thesis
    by (simp add: initialAnalysis_def)
qed

theorem endpoints_witness:
  "analyze headDoc = Inr (projr (analyze headDoc)) \<and>
   map (\<lambda>e. (ep_path e, ep_method e, ep_operation e)) (endpoints (projr (analyze headDoc))) =
   [(''/status'', ''HEAD'',
     JObj [(''responses'', JObj [(''200'', JObj [(''description'', JStr ''OK'')])])])]"
proof -
  have ok: "analyze headDoc = Inr (projr (analyze headDoc))" by code_simp
  have ev: "concat (map (\<lambda>item. map (\<lambda>op. (fst item, toUpperCase (fst op), snd op))
                                (filter (\<lambda>op. isOperation (snd op)) (ownEntries (snd item))))
                   (ownEntries (orEmptyObject (readOpt headDoc ''paths'')))) =
     [(''/status'', ''HEAD'',
       JObj [(''responses'', JObj [(''200'', JObj [(''description'', JStr ''OK'')])])])]"
    by code_simp
  from endpoints_are_the_operation_entries [OF ok] ok ev show ?thesis by simp
qed

text \<open>
  The claim of C3 fails on a document with a HEAD operation: it is emitted as an endpoint
  whose method is HEAD.
\<close>

theorem head_operation_is_an_endpoint:
  "map_sum id (map (\<lambda>e. (ep_path e, ep_method e)) \<circ> endpoints) (analyze headDoc) =
   Inr [(''/status'', ''HEAD'')]"
  by code_simp

section \<open>Workflows\<close>

text \<open>
  C4. A document with a parameter named \<^verbatim>\<open>page\<close> is claimed to yield exactly one
  pagination workflow whose type is \<^verbatim>\<open>pagination\<close>, a member of the declared set of
  workflow types. The analyzer emits one workflow named \<^verbatim>\<open>pagination\<close> with four steps,
  whose type is \<^verbatim>\<open>navigation\<close>; the declared set does not hold that value.
\<close>

theorem pagination_workflow_has_type_navigation:
  "map_sum id (map (\<lambda>w. (wf_name w, wf_type w, map step_action (wf_steps w))) \<circ> workflows)
     (analyze pageParameterDoc) =
   Inr [(''pagination'', ''navigation'',
         [''initial_request'', ''check_more'', ''fetch_next'', ''aggregate''])] \<and>
   ''navigation'' \<notin> set workflowTypes \<and> ''pagination'' \<in> set workflowTypes"
  by code_simp

section \<open>Resources and relationships\<close>

lemma set_fold_unique:
  "set (fold (\<lambda>x acc. if x \<in> set acc then acc else acc @ [x]) xs acc) = set acc \<union> set xs"
  by (induction xs arbitrary: acc) auto

lemma set_uniqueInOrder: "set (uniqueInOrder xs) = set xs"
  by (simp add: uniqueInOrder_def set_fold_unique)

lemma pushRef_set:
  "r \<in> set (pushRef name refName rels) \<Longrightarrow>
   r \<in> set rels \<or> (refName = Some r \<and> r \<noteq> [] \<and> r \<noteq> name)"
  by (auto simp: pushRef_def split: option.splits if_splits)

text \<open>What scanning one property can add to the names found so far.\<close>

lemma scanProperty_sound:
  assumes "scanProperty name entry rels = Inr rels'" and "r \<in> set rels'"
  shows "r \<in> set rels \<or>
         (r \<noteq> [] \<and> r \<noteq> name \<and>
          (extractRefName (readOpt (snd entry) ''$ref'') = Inr (Some r) \<or>
           readOpt (snd entry) ''type'' = JStr ''array'' \<and>
           extractRefName (readOpt (readOpt (snd entry) ''items'') ''$ref'') = Inr (Some r)))"
proof -
  from assms(1) obtain rels1 where
    first: "(if truthy (readOpt (snd entry) ''$ref'')
             then bindE (extractRefName (readOpt (snd entry) ''$ref''))
                    (\<lambda>refName. Inr (pushRef name refName rels))
             else Inr rels) = Inr rels1"
    and second: "(if readOpt (snd entry) ''type'' = JStr ''array'' \<and>
                     truthy (readOpt (readOpt (snd entry) ''items'') ''$ref'')
                  then bindE (extractRefName (readOpt (readOpt (snd entry) ''items'') ''$ref''))
                         (\<lambda>refName. Inr (pushRef name refName rels1))
                  else Inr rels1) = Inr rels'"
    by (auto simp: scanProperty_def Let_def bindE_Inr readProp_def split: if_splits)
  from first have one: "x \<in> set rels \<or>
      (x \<noteq> [] \<and> x \<noteq> name \<and> extractRefName (readOpt (snd entry) ''$ref'') = Inr (Some x))"
    if "x \<in> set rels1" for x
    using that by (auto simp: bindE_Inr split: if_splits dest: pushRef_set)
  from second have two: "r \<in> set rels1 \<or>
      (r \<noteq> [] \<and> r \<noteq> name \<and> readOpt (snd entry) ''type'' = JStr ''array'' \<and>
       extractRefName (readOpt (readOpt (snd entry) ''items'') ''$ref'') = Inr (Some r))"
    using assms(2) by (auto simp: bindE_Inr split: if_splits dest: pushRef_set)
  from one [of r] two show ?thesis by blast
qed

lemma findSchemaRelationships_sound:
  assumes "findSchemaRelationships name schema = Inr rels" and "r \<in> set rels"
  shows "r \<noteq> [] \<and> r \<noteq> name \<and>
         (\<exists>p \<in> snd ` set (ownEntries (readOpt schema ''properties'')).
            extractRefName (readOpt p ''$ref'') = Inr (Some r) \<or>
            readOpt p ''type'' = JStr ''array'' \<and>
            extractRefName (readOpt (readOpt p ''items'') ''$ref'') = Inr (Some r))"
proof -
  let ?props = "readOpt schema ''properties''"
  let ?Q = "\<lambda>x. x \<noteq> [] \<and> x \<noteq> name \<and>
         (\<exists>p \<in> snd ` set (ownEntries ?props).
            extractRefName (readOpt p ''$ref'') = Inr (Some x) \<or>
            readOpt p ''type'' = JStr ''array'' \<and>
            extractRefName (readOpt (readOpt p ''items'') ''$ref'') = Inr (Some x))"
  from assms(1) obtain found where
    f: "(if truthy ?props then foldE (scanProperty name) (ownEntries ?props) [] else Inr [])
        = Inr found" and u: "rels = uniqueInOrder found"
    by (auto simp: findSchemaRelationships_def bindE_Inr readProp_def split: if_splits)
  have "\<forall>x \<in> set found. ?Q x"
  proof (cases "truthy ?props")
    case True
    with f have "foldE (scanProperty name) (ownEntries ?props) [] = Inr found" by simp
    then show ?thesis
    proof (rule foldE_invariant [where P = "\<lambda>acc. \<forall>x \<in> set acc. ?Q x"])
      show "\<forall>x \<in> set []. ?Q x" by simp
    next
      fix e acc acc'
      assume e: "e \<in> set (ownEntries ?props)" and inv: "\<forall>x \<in> set acc. ?Q x"
        and step: "scanProperty name e acc = Inr acc'"
      show "\<forall>x \<in> set acc'. ?Q x"
      proof
        fix x assume "x \<in> set acc'"
        from scanProperty_sound [OF step this] inv e show "?Q x" by blast
      qed
    qed
  next
    case False
    with f show ?thesis by auto
  qed
  with assms(2) u show ?thesis by (simp add: set_uniqueInOrder)
qed

lemma foldE_analyzeSchema_resources:
  assumes "foldE analyzeSchema es a = Inr a'" and "res \<in> set (resources a')"
  shows "res \<in> set (resources a) \<or>
         (\<exists>e \<in> set es. res_name res = fst e \<and> res_schema res = snd e \<and>
            findSchemaRelationships (fst e) (snd e) = Inr (res_relationships res))"
proof -
  let ?P = "\<lambda>t. \<forall>x \<in> set (resources t). x \<in> set (resources a) \<or>
         (\<exists>e \<in> set es. res_name x = fst e \<and> res_schema x = snd e \<and>
            findSchemaRelationships (fst e) (snd e) = Inr (res_relationships x))"
  have "?P a'"
  proof (rule foldE_invariant [where P = ?P, OF assms(1)])
    show "?P a" by simp
  next
    fix e t t'
    assume e: "e \<in> set es" and inv: "?P t" and step: "analyzeSchema e t = Inr t'"
    from step obtain rels where r: "findSchemaRelationships (fst e) (snd e) = Inr rels"
      and t': "resources t' = resources t @
          [\<lparr>res_name = fst e, res_schema = snd e,
             res_isCore = isCoreResource (fst e) (snd e), res_relationships = rels\<rparr>]"
      by (auto simp: analyzeSchema_def bindE_Inr)
    show "?P t'"
    proof
      fix x assume "x \<in> set (resources t')"
      with t' consider "x \<in> set (resources t)"
        | "x = \<lparr>res_name = fst e, res_schema = snd e,
             res_isCore = isCoreResource (fst e) (snd e), res_relationships = rels\<rparr>"
        by auto
      then show "x \<in> set (resources a) \<or>
         (\<exists>e \<in> set es. res_name x = fst e \<and> res_schema x = snd e \<and>
            findSchemaRelationships (fst e) (snd e) = Inr (res_relationships x))"
      proof cases
        case 1
        with inv show ?thesis by blast
      next
        case 2
        with e r show ?thesis by auto
      qed
    qed
  qed
  with assms(2) show ?thesis by blast
qed

lemma foldE_relateResource_relationships:
  assumes "foldE (relateResource res) rs a = Inr a'" and "r \<in> set (relationships a')"
  shows "r \<in> set (relationships a) \<or> (rel_from r = res_name res \<and> rel_to r \<in> set rs)"
proof -
  let ?P = "\<lambda>t. \<forall>x \<in> set (relationships t).
     x \<in> set (relationships a) \<or> (rel_from x = res_name res \<and> rel_to x \<in> set rs)"
  have "?P a'"
  proof (rule foldE_invariant [where P = ?P, OF assms(1)])
    show "?P a" by simp
  next
    fix y t t'
    assume "y \<in> set rs" "?P t" "relateResource res y t = Inr t'"
    then show "?P t'" by (auto simp: relateResource_def bindE_Inr)
  qed
  with assms(2) show ?thesis by blast
qed

lemma analyzeRelationships_relationships:
  assumes "analyzeRelationships a = Inr a'" and "r \<in> set (relationships a')"
  shows "r \<in> set (relationships a) \<or>
         (\<exists>res \<in> set (resources a). rel_from r = res_name res \<and>
            rel_to r \<in> set (res_relationships res))"
proof -
  let ?P = "\<lambda>t. \<forall>x \<in> set (relationships t). x \<in> set (relationships a) \<or>
         (\<exists>res \<in> set (resources a). rel_from x = res_name res \<and>
            rel_to x \<in> set (res_relationships res))"
  from assms(1) have
    "foldE (\<lambda>resource. foldE (relateResource resource) (res_relationships resource))
       (resources a) a = Inr a'"
    by (simp add: analyzeRelationships_def)
  then have "?P a'"
  proof (rule foldE_invariant [where P = ?P])
    show "?P a" by simp
  next
    fix res t t'
    assume res: "res \<in> set (resources a)" and inv: "?P t"
      and step: "foldE (relateResource res) (res_relationships res) t = Inr t'"
    show "?P t'"
    proof
      fix x assume "x \<in> set (relationships t')"
      from foldE_relateResource_relationships [OF step this] inv res
      show "x \<in> set (relationships a) \<or>
         (\<exists>res \<in> set (resources a). rel_from x = res_name res \<and>
            rel_to x \<in> set (res_relationships res))" by blast
    qed
  qed
  with assms(2) show ?thesis by blast
qed

text \<open>Every resource of the model comes from an entry of the schema set.\<close>

lemma analyze_resources:
  assumes "analyze spec = Inr m" and "res \<in> set (resources m)"
  shows "\<exists>e \<in> set (ownEntries (orEmptyObject (readOpt (readOpt spec ''components'') ''schemas''))).
           res_name res = fst e \<and> res_schema res = snd e \<and>
           findSchemaRelationships (fst e) (snd e) = Inr (res_relationships res)"
proof -
  from assms(1) obtain a1 a2 a3 a4 where p:
    "analyzePaths spec initialAnalysis = Inr a1"
    "analyzeSchemas spec a1 = Inr a2"
    "detectWorkflows a2 = Inr a3"
    "analyzeRelationships a3 = Inr a4"
    "endpoints m = endpoints a1"
    "resources m = resources a2" "resources a3 = resources a2"
    "hasResources m = hasResources a2"
    "relationships m = relationships a4" "relationships a3 = []"
    "resources a1 = []" "hasResources a1 = False"
    by (rule analyze_passes)
  from p(2) have "foldE analyzeSchema
      (ownEntries (orEmptyObject (readOpt (readOpt spec ''components'') ''schemas''))) a1 = Inr a2"
    by (auto simp: analyzeSchemas_def bindE_Inr readProp_def split: if_splits)
  from foldE_analyzeSchema_resources [OF this, of res] assms(2) p(6,11) show ?thesis by simp
qed

text \<open>Every relationship of the model comes from the relationship list of a resource.\<close>

lemma analyze_relationships:
  assumes "analyze spec = Inr m" and "r \<in> set (relationships m)"
  shows "\<exists>res \<in> set (resources m). rel_from r = res_name res \<and>
            rel_to r \<in> set (res_relationships res)"
proof -
  from assms(1) obtain a1 a2 a3 a4 where p:
    "analyzePaths spec initialAnalysis = Inr a1"
    "analyzeSchemas spec a1 = Inr a2"
    "detectWorkflows a2 = Inr a3"
    "analyzeRelationships a3 = Inr a4"
    "endpoints m = endpoints a1"
    "resources m = resources a2" "resources a3 = resources a2"
    "hasResources m = hasResources a2"
    "relationships m = relationships a4" "relationships a3 = []"
    "resources a1 = []" "hasResources a1 = False"
    by (rule analyze_passes)
  from analyzeRelationships_relationships [OF p(4), of r] assms(2) p(6,7,9,10)
  show ?thesis by simp
qed

text \<open>
  C5, as amended. The claim was that the \<^verbatim>\<open>to\<close> field of every relationship names a
  schema of the document's schema set, a reference to anything else being dropped. The
  analyzer never looks the target up. For every relationship of a returned model, \<^verbatim>\<open>to\<close>
  is the non-empty text that follows \<^verbatim>\<open>#/components/schemas/\<close> in the reference of a
  direct property of the schema named \<^verbatim>\<open>from\<close>, or in the reference of the items of such
  a property when its type is \<^verbatim>\<open>array\<close>; whether the schema set has a schema of that name
  plays no part.
\<close>

theorem relationship_target_is_extracted_reference:
  assumes "analyze spec = Inr m" and "r \<in> set (relationships m)"
  shows "rel_to r \<noteq> [] \<and>
         (\<exists>schema p.
            (rel_from r, schema) \<in>
              set (ownEntries (orEmptyObject (readOpt (readOpt spec ''components'') ''schemas''))) \<and>
            p \<in> snd ` set (ownEntries (readOpt schema ''properties'')) \<and>
            (extractRefName (readOpt p ''$ref'') = Inr (Some (rel_to r)) \<or>
             readOpt p ''type'' = JStr ''array'' \<and>
             extractRefName (readOpt (readOpt p ''items'') ''$ref'') = Inr (Some (rel_to r))))"
proof -
  from analyze_relationships [OF assms] obtain res where res: "res \<in> set (resources m)"
    "rel_from r = res_name res" "rel_to r \<in> set (res_relationships res)" by blast
  from analyze_resources [OF assms(1) res(1)] obtain e where e:
    "e \<in> set (ownEntries (orEmptyObject (readOpt (readOpt spec ''components'') ''schemas'')))"
    "res_name res = fst e" "res_schema res = snd e"
    "findSchemaRelationships (fst e) (snd e) = Inr (res_relationships res)" by blast
  from findSchemaRelationships_sound [OF e(4) res(3)] obtain p where
    "rel_to r \<noteq> []" "p \<in> snd ` set (ownEntries (readOpt (snd e) ''properties''))"
    "extractRefName (readOpt p ''$ref'') = Inr (Some (rel_to r)) \<or>
     readOpt p ''type'' = JStr ''array'' \<and>
     extractRefName (readOpt (readOpt p ''items'') ''$ref'') = Inr (Some (rel_to r))"
    by blast
  moreover from e(1,2) res(2) have "(rel_from r, snd e) \<in>
      set (ownEntries (orEmptyObject (readOpt (readOpt spec ''components'') ''schemas'')))"
    by simp
  ultimately show ?thesis by blast
qed

theorem relationship_target_witness:
  "analyze ordersDoc = Inr (projr (analyze ordersDoc)) \<and>
   hd (relationships (projr (analyze ordersDoc))) \<in> set (relationships (projr (analyze ordersDoc))) \<and>
   rel_to (hd (relationships (projr (analyze ordersDoc)))) = ''Customer'' \<and>
   (\<exists>schema p.
      (rel_from (hd (relationships (projr (analyze ordersDoc)))), schema) \<in>
        set (ownEntries (orEmptyObject (readOpt (readOpt ordersDoc ''components'') ''schemas''))) \<and>
      p \<in> snd ` set (ownEntries (readOpt schema ''properties'')) \<and>
      (extractRefName (readOpt p ''$ref'') =
         Inr (Some (rel_to (hd (relationships (projr (analyze ordersDoc)))))) \<or>
       readOpt p ''type'' = JStr ''array'' \<and>
       extractRefName (readOpt (readOpt p ''items'') ''$ref'') =
         Inr (Some (rel_to (hd (relationships (projr (analyze ordersDoc))))))))"
proof -
  have ok: "analyze ordersDoc = Inr (projr (analyze ordersDoc))" by code_simp
  have ne: "relationships (projr (analyze ordersDoc)) \<noteq> []" by code_simp
  then have mem: "hd (relationships (projr (analyze ordersDoc))) \<in>
      set (relationships (projr (analyze ordersDoc)))" by simp
  have c: "rel_to (hd (relationships (projr (analyze ordersDoc)))) = ''Customer''" by code_simp
  from relationship_target_is_extracted_reference [OF ok mem] ok mem c show ?thesis by blast
qed

text \<open>
  The claim of C5 fails on a document whose schema \<^verbatim>\<open>Order\<close> refers to \<^verbatim>\<open>Customer\<close>,
  which the schema set does not hold: the relationship from \<^verbatim>\<open>Order\<close> to \<^verbatim>\<open>Customer\<close> is
  emitted.
\<close>

theorem relationship_to_absent_schema:
  "map_sum id (map (\<lambda>r. (rel_from r, rel_to r)) \<circ> relationships) (analyze ordersDoc) =
     Inr [(''Order'', ''Customer''), (''Order'', ''Item'')] \<and>
   map fst (ownEntries (readOpt (readOpt ordersDoc ''components'') ''schemas'')) =
     [''Order'', ''Item'']"
  by code_simp

text \<open>
  C8. In the model \<^verbatim>\<open>analyze()\<close> returns, no relationship has \<^verbatim>\<open>from\<close> equal to \<^verbatim>\<open>to\<close>, and
  no resource lists its own name among its relationships.
\<close>

theorem no_self_relationship:
  assumes "analyze spec = Inr m"
  shows "(\<forall>r \<in> set (relationships m). rel_from r \<noteq> rel_to r) \<and>
         (\<forall>res \<in> set (resources m). res_name res \<notin> set (res_relationships res))"
proof -
  have own: "res_name res \<notin> set (res_relationships res)" if "res \<in> set (resources m)" for res
  proof -
    from analyze_resources [OF assms that] obtain e where
      "res_name res = fst e" "findSchemaRelationships (fst e) (snd e) = Inr (res_relationships res)"
      by blast
    with findSchemaRelationships_sound [of "fst e" "snd e" "res_relationships res" "res_name res"]
    show ?thesis by auto
  qed
  have "rel_from r \<noteq> rel_to r" if "r \<in> set (relationships m)" for r
    using analyze_relationships [OF assms that] own by auto
  with own show ?thesis by blast
qed

theorem no_self_relationship_witness:
  "analyze ordersDoc = Inr (projr (analyze ordersDoc)) \<and>
   length (relationships (projr (analyze ordersDoc))) = 2 \<and>
   list_all (\<lambda>r. rel_from r \<noteq> rel_to r) (relationships (projr (analyze ordersDoc))) \<and>
   list_all (\<lambda>res. res_name res \<notin> set (res_relationships res))
     (resources (projr (analyze ordersDoc)))"
proof -
  have ok: "analyze ordersDoc = Inr (projr (analyze ordersDoc))" by code_simp
  have n: "length (relationships (projr (analyze ordersDoc))) = 2" by code_simp
  from no_self_relationship [OF ok] ok n show ?thesis by (simp add: list_all_iff)
qed

lemma foldE_analyzeSchema_hasResources:
  "foldE analyzeSchema es a = Inr a' \<Longrightarrow> hasResources a' = (hasResources a \<or> es \<noteq> [])"
proof (induction es arbitrary: a)
  case Nil
  then show ?case by simp
next
  case (Cons e es)
  from Cons.prems obtain t where t: "analyzeSchema e a = Inr t"
    and r: "foldE analyzeSchema es t = Inr a'"
    by (auto split: sum.splits)
  from t have "hasResources t" by (auto simp: analyzeSchema_def bindE_Inr)
  with Cons.IH [OF r] show ?case by simp
qed

text \<open>
  C10. The flag \<^verbatim>\<open>hasResources\<close> of the model \<^verbatim>\<open>analyze()\<close> returns is true if and only
  if \<^verbatim>\<open>components.schemas\<close> of the document has at least one entry; no other section of
  the document takes part.
\<close>

theorem hasResources_iff_schemas:
  assumes "analyze spec = Inr m"
  shows "hasResources m \<longleftrightarrow>
         ownEntries (orEmptyObject (readOpt (readOpt spec ''components'') ''schemas'')) \<noteq> []"
proof -
  from assms obtain a1 a2 a3 a4 where p:
    "analyzePaths spec initialAnalysis = Inr a1"
    "analyzeSchemas spec a1 = Inr a2"
    "detectWorkflows a2 = Inr a3"
    "analyzeRelationships a3 = Inr a4"
    "endpoints m = endpoints a1"
    "resources m = resources a2" "resources a3 = resources a2"
    "hasResources m = hasResources a2"
    "relationships m = relationships a4" "relationships a3 = []"
    "resources a1 = []" "hasResources a1 = False"
    by (rule analyze_passes)
  from p(2) have "foldE analyzeSchema
      (ownEntries (orEmptyObject (readOpt (readOpt spec ''components'') ''schemas''))) a1 = Inr a2"
    by (auto simp: analyzeSchemas_def bindE_Inr readProp_def split: if_splits)
  from foldE_analyzeSchema_hasResources [OF this] p(8,12) show ?thesis by simp
qed

theorem hasResources_witness:
  "analyze ordersDoc = Inr (projr (analyze ordersDoc)) \<and>
   hasResources (projr (analyze ordersDoc)) \<and>
   ownEntries (orEmptyObject (readOpt (readOpt ordersDoc ''components'') ''schemas'')) \<noteq> []"
proof -
  have ok: "analyze ordersDoc = Inr (projr (analyze ordersDoc))" by code_simp
  have ne: "ownEntries (orEmptyObject (readOpt (readOpt ordersDoc ''components'') ''schemas'')) \<noteq> []"
    by code_simp
  from hasResources_iff_schemas [OF ok] ok ne show ?thesis by simp
qed

section \<open>Complexity\<close>

lemma parameter_share:
  assumes "parametersWellTyped operation"
  shows "\<exists>n. 0 \<le> n \<and>
           floorDiv3 (readOpt (orEmptyArray (readOpt operation ''parameters'')) ''length'') =
           Inr (Num n)"
  using assms
  by (auto simp: parametersWellTyped_def orEmptyArray_def split: json.splits)

text \<open>
  The score is an integer \<open>c \<ge> 1\<close> fixed by the parameters and the request body, plus one
  when there are more than three responses.
\<close>

lemma calculateComplexity_value:
  assumes "\<not> nullish operation" and "parametersWellTyped operation"
  shows "\<exists>c. 1 \<le> c \<and>
           (\<forall>operation'. \<not> nullish operation' \<longrightarrow>
              readOpt operation' ''parameters'' = readOpt operation ''parameters'' \<longrightarrow>
              readOpt operation' ''requestBody'' = readOpt operation ''requestBody'' \<longrightarrow>
              calculateComplexity operation' =
                Inr (Num (if 3 < length (ownEntries (orEmptyObject (readOpt operation' ''responses'')))
                          then c + 1 else c)))"
proof -
  from parameter_share [OF assms(2)] obtain n where n: "0 \<le> n"
    "floorDiv3 (readOpt (orEmptyArray (readOpt operation ''parameters'')) ''length'') = Inr (Num n)"
    by blast
  let ?rb = "readOpt operation ''requestBody''"
  let ?props = "readOpt (readOpt (readOpt (readOpt ?rb ''content'') ''application/json'')
                  ''schema'') ''properties''"
  define b :: int where "b = (if truthy ?rb then
      (if truthy ?props \<and> 5 < length (ownEntries ?props) then 2 else 1) else 0)"
  have "0 \<le> b" by (simp add: b_def)
  have "calculateComplexity operation' =
          Inr (Num (if 3 < length (ownEntries (orEmptyObject (readOpt operation' ''responses'')))
                    then (1 + n + b) + 1 else 1 + n + b))"
    if "\<not> nullish operation'"
       "readOpt operation' ''parameters'' = readOpt operation ''parameters''"
       "readOpt operation' ''requestBody'' = readOpt operation ''requestBody''" for operation'
    using that n(2)
    by (simp add: calculateComplexity_def readProp_Inr getRequestBodySchema_def
        truthy_not_nullish b_def)
  with n(1) \<open>0 \<le> b\<close> show ?thesis
    by (intro exI [of _ "1 + n + b"]) simp
qed

text \<open>
  C9. Take two operations with the same parameters and the same request body, the first
  with more than three response entries and the second with three or fewer. Then the
  complexity of the first is exactly one more than the complexity of the second, and the
  scores are integers of at least 1. An operation is an object whose \<^verbatim>\<open>parameters\<close>, as
  its type declares, are absent or an array.
\<close>

theorem complexity_counts_many_responses:
  assumes "\<not> nullish op1" and "\<not> nullish op2"
    and "parametersWellTyped op2"
    and "readOpt op1 ''parameters'' = readOpt op2 ''parameters''"
    and "readOpt op1 ''requestBody'' = readOpt op2 ''requestBody''"
    and "3 < length (ownEntries (orEmptyObject (readOpt op1 ''responses'')))"
    and "length (ownEntries (orEmptyObject (readOpt op2 ''responses''))) \<le> 3"
  shows "\<exists>c. calculateComplexity op2 = Inr (Num c) \<and>
             calculateComplexity op1 = Inr (Num (c + 1)) \<and> 1 \<le> c"
proof -
  from calculateComplexity_value [OF assms(2,3)] obtain c where c: "1 \<le> c"
    "\<And>operation'. \<not> nullish operation' \<Longrightarrow>
              readOpt operation' ''parameters'' = readOpt op2 ''parameters'' \<Longrightarrow>
              readOpt operation' ''requestBody'' = readOpt op2 ''requestBody'' \<Longrightarrow>
              calculateComplexity operation' =
                Inr (Num (if 3 < length (ownEntries (orEmptyObject (readOpt operation' ''responses'')))
                          then c + 1 else c))"
    by blast
  from c(2) [of op1] c(2) [of op2] assms c(1) show ?thesis by auto
qed

theorem complexity_witness:
  "\<exists>c. calculateComplexity oneResponseOperation = Inr (Num c) \<and>
       calculateComplexity fourResponsesOperation = Inr (Num (c + 1)) \<and> 1 \<le> c"
proof (rule complexity_counts_many_responses)
  show "\<not> nullish fourResponsesOperation" "\<not> nullish oneResponseOperation"
    by (simp_all add: fourResponsesOperation_def oneResponseOperation_def)
  show "parametersWellTyped oneResponseOperation" by code_simp
  show "readOpt fourResponsesOperation ''parameters'' = readOpt oneResponseOperation ''parameters''"
    by code_simp
  show "readOpt fourResponsesOperation ''requestBody'' =
        readOpt oneResponseOperation ''requestBody''"
    by code_simp
  show "3 < length (ownEntries (orEmptyObject (readOpt fourResponsesOperation ''responses'')))"
    by code_simp
  show "length (ownEntries (orEmptyObject (readOpt oneResponseOperation ''responses''))) \<le> 3"
    by code_simp
qed

section \<open>Models on the heap\<close>

lemma someRootNamedTest_roots:
  "someRootNamedTest (JArr (map rootObject roots)) =
   Inr (list_ex (\<lambda>r. includesStr (snd r) ''test'') roots)"
proof -
  have "someE (\<lambda>r. bindE (readProp r ''name'') (\<lambda>n. callIncludes n ''test''))
          (map rootObject roots)
        = Inr (list_ex (\<lambda>r. includesStr (snd r) ''test'') roots)"
    by (induction roots) (simp_all add: rootObject_def readProp_def)
  then show ?thesis by (simp add: someRootNamedTest_def)
qed

lemma analyzeRef_keeps: "take (length st) (snd (analyzeRef spec st)) = st"
  by (cases "analyze spec") (simp_all add: analyzeRef_def)

lemma analyzeRef_fresh:
  "analyzeRef spec st = (Inr a, st1) \<Longrightarrow> a = length st \<and> length st1 = Suc a"
  by (cases "analyze spec") (auto simp: analyzeRef_def)

lemma analyzeWithContextRef_keeps:
  "take (length st) (snd (analyzeWithContextRef spec ctx st)) = st"
proof (cases "analyzeRef spec st")
  case (Pair r st1)
  then have k: "take (length st) st1 = st" using analyzeRef_keeps [of st spec] by simp
  show ?thesis
  proof (cases r)
    case (Inl e)
    with Pair k show ?thesis by (simp add: analyzeWithContextRef_def)
  next
    case (Inr a)
    with Pair have a: "a = length st" using analyzeRef_fresh by blast
    with Pair Inr k show ?thesis
      by (auto simp: analyzeWithContextRef_def Let_def split: sum.splits)
  qed
qed

text \<open>
  C6. Let \<^verbatim>\<open>analyze()\<close> produce the model \<open>m\<close> for the document, and let the context
  snapshot be an object whose \<^verbatim>\<open>roots\<close> are a list of roots (or absent). Then
  \<^verbatim>\<open>analyzeWithContext(context)\<close> returns a new model that equals \<open>m\<close> in every field
  except two capability flags: \<^verbatim>\<open>requiresStrictValidation\<close> is true when the environment
  is \<^verbatim>\<open>production\<close>, and \<^verbatim>\<open>hasTestMode\<close> is true when the name of some root contains
  \<^verbatim>\<open>test\<close>. Whatever the document and the context, a call of \<^verbatim>\<open>analyze()\<close> or of
  \<^verbatim>\<open>analyzeWithContext()\<close> leaves every model that was on the heap before as it was.
\<close>

theorem analyzeWithContext_overlays_fresh_model:
  assumes "analyze spec = Inr m"
    and "\<not> nullish ctx"
    and "readOpt ctx ''roots'' = JArr (map rootObject roots) \<or>
         nullish (readOpt ctx ''roots'') \<and> roots = []"
  shows "analyzeWithContextRef spec ctx st =
           (Inr (length st),
            st @ [m\<lparr>capabilities := (capabilities m)
                     \<lparr>requiresStrictValidation :=
                        (if readOpt ctx ''environment'' = JStr ''production'' then Some True
                         else requiresStrictValidation (capabilities m)),
                      hasTestMode :=
                        (if list_ex (\<lambda>r. includesStr (snd r) ''test'') roots then Some True
                         else hasTestMode (capabilities m))\<rparr>\<rparr>]) \<and>
         analyzeRef spec st = (Inr (length st), st @ [m]) \<and>
         (\<forall>spec' ctx'. take (length st) (snd (analyzeRef spec' st)) = st \<and>
                       take (length st) (snd (analyzeWithContextRef spec' ctx' st)) = st)"
proof -
  have r: "analyzeRef spec st = (Inr (length st), st @ [m])"
    using assms(1) by (simp add: analyzeRef_def)
  have "someRootNamedTest (readOpt ctx ''roots'') =
      Inr (list_ex (\<lambda>r. includesStr (snd r) ''test'') roots)"
    using assms(3)
  proof
    assume "readOpt ctx ''roots'' = JArr (map rootObject roots)"
    then show ?thesis by (simp add: someRootNamedTest_roots)
  next
    assume "nullish (readOpt ctx ''roots'') \<and> roots = []"
    then show ?thesis by (simp add: someRootNamedTest_def)
  qed
  then have roots: "bindE (readProp ctx ''roots'') someRootNamedTest =
      Inr (list_ex (\<lambda>r. includesStr (snd r) ''test'') roots)"
    using assms(2) by (simp add: readProp_Inr)
  have env: "readProp ctx ''environment'' = Inr (readOpt ctx ''environment'')"
    using assms(2) by (simp add: readProp_Inr)
  have "analyzeWithContextRef spec ctx st =
           (Inr (length st),
            st @ [m\<lparr>capabilities := (capabilities m)
                     \<lparr>requiresStrictValidation :=
                        (if readOpt ctx ''environment'' = JStr ''production'' then Some True
                         else requiresStrictValidation (capabilities m)),
                      hasTestMode :=
                        (if list_ex (\<lambda>r. includesStr (snd r) ''test'') roots then Some True
                         else hasTestMode (capabilities m))\<rparr>\<rparr>])"
    unfolding analyzeWithContextRef_def r
    by (simp add: env roots setStrictValidation_def setTestMode_def Let_def)
  with r show ?thesis
    by (simp add: analyzeRef_keeps analyzeWithContextRef_keeps)
qed

theorem analyzeWithContext_witness:
  "analyze noPathsDoc = Inr initialAnalysis \<and> \<not> nullish productionContext \<and>
   analyzeWithContextRef noPathsDoc productionContext [initialAnalysis] =
     (Inr 1,
      [initialAnalysis,
       initialAnalysis\<lparr>capabilities := (capabilities initialAnalysis)
          \<lparr>requiresStrictValidation := Some True, hasTestMode := Some True\<rparr>\<rparr>])"
proof -
  have ok: "analyze noPathsDoc = Inr initialAnalysis" by code_simp
  have c: "\<not> nullish productionContext" by (simp add: productionContext_def)
  have r: "readOpt productionContext ''roots'' =
      JArr (map rootObject [(''file:///srv/api'', ''api''), (''file:///srv/test-data'', ''test-data'')])
      \<or> nullish (readOpt productionContext ''roots'') \<and>
        [(''file:///srv/api'', ''api''), (''file:///srv/test-data'', ''test-data'')] = []"
    by (simp add: productionContext_def)
  have e: "readOpt productionContext ''environment'' = JStr ''production''"
    by (simp add: productionContext_def)
  have t: "list_ex (\<lambda>r. includesStr (snd r) ''test'')
      [(''file:///srv/api'', ''api''), (''file:///srv/test-data'', ''test-data'')]"
    by code_simp
  from analyzeWithContext_overlays_fresh_model [OF ok c r, of "[initialAnalysis]"] ok c e t
  show ?thesis by simp
qed

end
